theory Spec2Isabelle
  imports Complex_Main "HOL-Library.Word"
begin

section \<open>Data model\<close>

text \<open>
  Go's \<open>error\<close> interface values. A nil error is \<open>None\<close> of \<open>error option\<close>.
  \<open>New s\<close> is \<open>errors.New(s)\<close> (and any error of an external library, by its text),
  \<open>Wrap s e\<close> is \<open>fmt.Errorf(s + "%w", e)\<close>, \<open>Multi es\<close> is an aggregate built by
  \<open>multierr.Append\<close>.
\<close>

datatype error = New string | Wrap string error | Multi "error list"

text \<open>
  Modelled from the spec: \<open>internal/multierr\<close> is not among the sources. The spec only says
  that it "combines" errors "into one aggregate"; \<open>multierr.Append(err, e)\<close> is taken to
  extend the aggregate \<open>err\<close> (nil, a single error or an aggregate) by \<open>e\<close>.
\<close>

fun multierr_Append :: "error option \<Rightarrow> error \<Rightarrow> error option" where
  "multierr_Append None e = Some (Multi [e])"
| "multierr_Append (Some (Multi es)) e = Some (Multi (es @ [e]))"
| "multierr_Append (Some x) e = Some (Multi [x, e])"

text \<open>
  \<open>time.Time\<close> is an instant in nanoseconds, \<open>0\<close> standing for the zero value;
  \<open>time.Duration\<close> is an \<open>int64\<close> number of nanoseconds, kept as an \<open>int\<close> with the
  64-bit behaviour written out where the code computes with it.
\<close>

type_synonym time = int
type_synonym duration = int


definition Time_Sub :: "time \<Rightarrow> time \<Rightarrow> duration" where
  \<comment> \<open>\<open>t.Sub(u)\<close>: the difference, saturated at the largest and smallest Duration.\<close>
  "Time_Sub t u = max (- (2 ^ 63)) (min (2 ^ 63 - 1) (t - u))"

text \<open>
  A decoded MAVLink message: its Go type, named by the message id of that type, and its
  field values. An \<open>interface{}\<close> payload of a log entry is a MAVLink message or the
  \<open>[]string\<close> an AT command answered; nil is \<open>None\<close>.
\<close>

record mav_message =
  msg_type :: "32 word"
  msg_fields :: "int list"

datatype payload = MavPayload mav_message | ATPayload "string list"

record LogEntry =
  Index :: "64 word"
  MessageType :: string
  MessageID :: "payload option"
  Success :: bool
  Data :: "payload option"
  Error :: string
  Metadata :: "(string \<times> payload) list"
  RequestTime :: time
  ResponseTime :: time
  Duration :: duration

section \<open>Writer interface\<close>

text \<open>
  \<open>Writer\<close> is an interface; the Processor only calls \<open>Write\<close> and \<open>Close\<close>. An
  implementation is represented by what it has been handed (\<open>written\<close>: one batch per call
  of \<open>Write\<close>, in call order), by the results its coming \<open>Write\<close> calls return
  (\<open>write_results\<close>, nil once the list is used up), by the number of \<open>Close\<close> calls it has
  received and by what \<open>Close\<close> returns.
\<close>

record Writer =
  written :: "LogEntry list list"
  write_results :: "error option list"
  close_calls :: nat
  close_result :: "error option"

definition Writer_Write :: "Writer \<Rightarrow> LogEntry list \<Rightarrow> Writer \<times> error option" where
  "Writer_Write w entries =
     (w\<lparr>written := written w @ [entries], write_results := tl (write_results w)\<rparr>,
      (case write_results w of [] \<Rightarrow> None | r # _ \<Rightarrow> r))"

definition Writer_Close :: "Writer \<Rightarrow> Writer \<times> error option" where
  "Writer_Close w = (w\<lparr>close_calls := Suc (close_calls w)\<rparr>, close_result w)"

section \<open>Processor\<close>

text \<open>
  Messages are held by pointer: \<open>hashset.Set[Message]\<close> is a Go map keyed by the interface
  value, and the interface values in this repository hold \<open>*mavlink.Message[T]\<close> or
  \<open>*AT.Message\<close>, so two keys are equal exactly when they are the same pointer. A pointer
  is an address of the message store. The set is kept as a list without repetitions;
  \<open>Values()\<close> returns the members in the unspecified order of Go's map iteration, and
  nothing below depends on the order of the list.

  \<open>ctx_done\<close> is the state of \<open>p.ctx\<close>, \<open>has_cancel\<close> says that \<open>p.cancel\<close> is not nil,
  \<open>once\<close> that \<open>p.once\<close> has fired, \<open>wg\<close> is the counter of the WaitGroup.
  \<open>make([]LogEntry, 0, buffsize)\<close> panics for a negative size, so a Processor that
  exists has a natural number as \<open>logBatchSize\<close>.
\<close>

type_synonym ptr = nat

datatype Requester = MavlinkRequester (timeout: duration) | ATRequester

record Processor =
  Mavlink :: "Requester option"
  AT :: "Requester option"
  messages :: "ptr list"
  interval :: duration
  writer :: "Writer option"
  ctx_done :: bool
  has_cancel :: bool
  once :: bool
  wg :: nat
  logBatchSize :: nat
  logBuffer :: "LogEntry list"

definition NewProcessor ::
  "bool \<Rightarrow> duration \<Rightarrow> Writer option \<Rightarrow> int \<Rightarrow> ptr list \<Rightarrow> Processor option" where
  \<comment> \<open>The first argument is the state of the parent context; \<open>None\<close> is the panic of make.\<close>
  "NewProcessor parent_done interval' writer' buffsize messages' =
     (if buffsize < 0 then None
      else Some \<lparr>Mavlink = None, AT = None, messages = fold List.insert messages' [], interval = interval',
                 writer = writer', ctx_done = parent_done, has_cancel = True, once = False,
                 wg = 0, logBatchSize = nat buffsize, logBuffer = []\<rparr>)"

definition AddMessage :: "Processor \<Rightarrow> ptr \<Rightarrow> Processor" where
  "AddMessage p m = p\<lparr>messages := List.insert m (messages p)\<rparr>"

definition RemoveMessage :: "Processor \<Rightarrow> ptr \<Rightarrow> Processor" where
  "RemoveMessage p m = p\<lparr>messages := removeAll m (messages p)\<rparr>"

definition Start :: "Processor \<Rightarrow> Processor" where
  "Start p = p\<lparr>wg := Suc (wg p)\<rparr>"

text \<open>
  \<open>flushLogsUnsafe\<close>: nothing to do on an empty buffer; otherwise the buffer is handed to
  \<open>Write\<close>, an error of \<open>Write\<close> is printed and dropped, and the buffer is replaced by a
  fresh empty one. \<open>None\<close> is the nil dereference of calling \<open>Write\<close> on a nil Writer.
\<close>

definition flushLogsUnsafe :: "Processor \<Rightarrow> Processor option" where
  "flushLogsUnsafe p =
     (if length (logBuffer p) = 0 then Some p
      else case writer p of
             None \<Rightarrow> None
           | Some w \<Rightarrow>
               (case Writer_Write w (logBuffer p) of
                  (w', err) \<Rightarrow> Some (p\<lparr>writer := Some w', logBuffer := []\<rparr>)))"

definition flushLogs :: "Processor \<Rightarrow> Processor option" where
  "flushLogs p = flushLogsUnsafe p"

definition addLogEntry :: "Processor \<Rightarrow> LogEntry \<Rightarrow> Processor option" where
  "addLogEntry p entry =
     (let p' = p\<lparr>logBuffer := logBuffer p @ [entry]\<rparr>
      in if length (logBuffer p') \<ge> logBatchSize p' then flushLogsUnsafe p' else Some p')"

text \<open>
  \<open>request\<close> walks the snapshot of the message set. What \<open>message.Request(p)\<close> returned
  for each message of the snapshot, in iteration order, is the argument \<open>results\<close>: the
  packages of the messages cannot reach the unexported buffer, so a request acts on the
  Processor only through the entry and error it returns.
\<close>

fun request_from :: "error option \<Rightarrow> Processor \<Rightarrow> (LogEntry \<times> error option) list \<Rightarrow>
    (Processor \<times> error option) option" where
  "request_from err p [] = Some (p, err)"
| "request_from err p ((lg, e) # rest) =
     (let err' = (case e of None \<Rightarrow> err | Some e' \<Rightarrow> multierr_Append err e')
      in case addLogEntry p lg of
           None \<Rightarrow> None
         | Some p' \<Rightarrow> request_from err' p' rest)"

definition request :: "Processor \<Rightarrow> (LogEntry \<times> error option) list \<Rightarrow>
    (Processor \<times> error option) option" where
  "request p results = request_from None p results"

text \<open>
  The loop, driven by the cases its \<open>select\<close> takes, one per iteration: the context is
  done, the request ticker fired (with the results of that tick's requests), or the log
  ticker fired. It returns only through the first case, after a last flush; with no case
  left to take it is blocked in \<open>select\<close>.
\<close>

datatype loop_case = CtxDone | TickerC "(LogEntry \<times> error option) list" | LogTickerC

datatype run = Panicked | Blocked Processor | Returned Processor

fun loop :: "Processor \<Rightarrow> loop_case list \<Rightarrow> run" where
  "loop p [] = Blocked p"
| "loop p (CtxDone # cs) =
     (case flushLogs p of None \<Rightarrow> Panicked | Some p' \<Rightarrow> Returned (p'\<lparr>wg := wg p' - 1\<rparr>))"
| "loop p (TickerC results # cs) =
     (case request p results of None \<Rightarrow> Panicked | Some (p', err) \<Rightarrow> loop p' cs)"
| "loop p (LogTickerC # cs) =
     (case flushLogs p of None \<Rightarrow> Panicked | Some p' \<Rightarrow> loop p' cs)"

fun tick_entries :: "loop_case \<Rightarrow> LogEntry list" where
  "tick_entries (TickerC results) = map fst results"
| "tick_entries _ = []"

definition handed :: "Processor \<Rightarrow> LogEntry list" where
  \<comment> \<open>all entries handed to \<open>Write\<close> so far, in order\<close>
  "handed p = (case writer p of None \<Rightarrow> [] | Some w \<Rightarrow> concat (written w))"

section \<open>Messages and requesters\<close>

text \<open>
  \<open>fmt.Sprintf("%d", n)\<close> for an unsigned number: its decimal digits.
\<close>

definition digit :: "nat \<Rightarrow> char" where
  "digit n = ''0123456789'' ! n"

fun Sprintf_d :: "nat \<Rightarrow> string" where
  "Sprintf_d n =
     (if n < 10 then [digit n]
      else Sprintf_d (n div 10) @ [digit (n mod 10)])"

text \<open>
  The two message types of the repository. \<open>mavlink.Message[T]\<close> keeps the id of its type
  parameter, \<open>(*empty).GetID()\<close>, and the type parameter itself is named by that id. Its
  field \<open>ctx\<close> is the lifetime context, whose state is read from the environment below.
\<close>

record mavlink_Message =
  mav_index :: "64 word"
  mav_messages :: "LogEntry list"
  mav_id :: "32 word"

record AT_Message =
  at_index :: "64 word"
  at_messages :: "LogEntry list"
  at_cmd :: string

datatype Message = MavlinkMsg mavlink_Message | ATMsg AT_Message

definition mavlink_NewMessage :: "32 word \<Rightarrow> mavlink_Message" where
  "mavlink_NewMessage T = \<lparr>mav_index = 0, mav_messages = [], mav_id = T\<rparr>"

definition AT_NewMessage :: "string \<Rightarrow> AT_Message" where
  "AT_NewMessage cmd = \<lparr>at_index = 0, at_messages = [], at_cmd = cmd\<rparr>"

definition mavlink_GetType :: "mavlink_Message \<Rightarrow> string" where
  "mavlink_GetType m = ''mavlink-'' @ Sprintf_d (unat (mav_id m))"

definition AT_GetType :: "AT_Message \<Rightarrow> string" where
  "AT_GetType m = ''at-'' @ at_cmd m"

definition mavlink_add :: "mavlink_Message \<Rightarrow> LogEntry \<Rightarrow> mavlink_Message" where
  "mavlink_add m lg = m\<lparr>mav_messages := mav_messages m @ [lg]\<rparr>"

definition AT_add :: "AT_Message \<Rightarrow> LogEntry \<Rightarrow> AT_Message" where
  "AT_add m lg = m\<lparr>at_messages := at_messages m @ [lg]\<rparr>"

fun GetType :: "Message \<Rightarrow> string" where
  "GetType (MavlinkMsg m) = mavlink_GetType m"
| "GetType (ATMsg m) = AT_GetType m"


text \<open>
  What a call of \<open>Process\<close> meets outside the message. \<open>now\<close> is the clock at entry.
  For a telemetry request: \<open>send_result\<close> is the error text of \<open>WriteMessageAll\<close> (or
  nil), and \<open>steps\<close> are the successive moments at which the \<open>select\<close> of the wait loop
  is evaluated. At each moment the lifetime context \<open>m.ctx\<close> is done or not, the request
  context (made by \<open>context.WithTimeout(m.ctx, r.timeout)\<close>) is live or done with its
  error, the event channel has nothing, is closed, or offers an event, and the clock has a
  reading. Go's \<open>select\<close> takes one of the cases that can proceed, chosen pseudo-randomly:
  the runtime draws a random order of the cases and takes the first that is ready;
  \<open>pollorder\<close> is that order. When no case is ready the \<open>select\<close> sleeps until the
  next moment. For a modem request: \<open>command_result\<close> is what \<open>node.Command\<close> returns and
  \<open>now_after\<close> the clock after it.
\<close>

datatype ctx_state = Live | DeadlineExceeded | Canceled

datatype event = EventFrame mav_message | EventOther

datatype chan = NoEvent | ChanClosed | Incoming event

datatype select_case = LifetimeDone | RequestDone | EventsRecv

record wait_step =
  pollorder :: "select_case list"
  lifetime_done :: bool
  request_ctx :: ctx_state
  events :: chan
  clock :: time

record env =
  now :: time
  send_result :: "string option"
  steps :: "wait_step list"
  command_result :: "string + string list"
  now_after :: time

fun ctx_Err :: "ctx_state \<Rightarrow> error option" where
  "ctx_Err Live = None"
| "ctx_Err DeadlineExceeded = Some (New ''context deadline exceeded'')"
| "ctx_Err Canceled = Some (New ''context canceled'')"

fun ready :: "wait_step \<Rightarrow> select_case \<Rightarrow> bool" where
  "ready s LifetimeDone = lifetime_done s"
| "ready s RequestDone = (request_ctx s \<noteq> Live)"
| "ready s EventsRecv = (events s \<noteq> NoEvent)"

definition select :: "wait_step \<Rightarrow> select_case option" where
  "select s = find (ready s) (pollorder s)"

text \<open>
  The wait loop of \<open>mavlink.Message.Process\<close> (the \<open>for { select { ... } }\<close>). \<open>None\<close>:
  the call has not returned within the moments given.
\<close>

fun await :: "mavlink_Message \<Rightarrow> LogEntry \<Rightarrow> wait_step list \<Rightarrow>
    (mavlink_Message \<times> LogEntry \<times> error option) option" where
  "await m lg [] = None"
| "await m lg (s # ss) =
     (case select s of
        None \<Rightarrow> await m lg ss
      | Some LifetimeDone \<Rightarrow>
          (let lg' = lg\<lparr>Error := ''context cancelled''\<rparr>
           in Some (mavlink_add m lg', lg', None))
      | Some RequestDone \<Rightarrow>
          (let lg' = lg\<lparr>Error := ''request timeout''\<rparr>
           in Some (mavlink_add m lg', lg', ctx_Err (request_ctx s)))
      | Some EventsRecv \<Rightarrow>
          (case events s of
             NoEvent \<Rightarrow> await m lg ss
           | ChanClosed \<Rightarrow>
               (let lg' = lg\<lparr>Error := ''errors interface mismatch''\<rparr>
                in Some (mavlink_add m lg', lg', Some (New ''error interface mismatch'')))
           | Incoming EventOther \<Rightarrow> await m lg ss
           | Incoming (EventFrame msg) \<Rightarrow>
               (if msg_type msg \<noteq> mav_id m then await m lg ss
                else (let lg' = lg\<lparr>Success := True, Data := Some (MavPayload msg),
                                       ResponseTime := clock s,
                                       Duration := Time_Sub (clock s) (RequestTime lg)\<rparr>
                      in Some (mavlink_add m lg', lg', None)))))"

text \<open>
  \<open>mavlink.Message.Process\<close>. The requester is an interface value: nil, a \<open>*Mavlink\<close>
  or an \<open>*AT\<close>. The deferred \<open>m.index++\<close> runs when the call returns.
\<close>

definition mavlink_Process :: "mavlink_Message \<Rightarrow> Requester option \<Rightarrow> env \<Rightarrow>
    (mavlink_Message \<times> LogEntry \<times> error option) option" where
  "mavlink_Process m requester e =
     (let lg = \<lparr>Index = mav_index m, MessageType = mavlink_GetType m, MessageID = None,
                  Success = False, Data = None, Error = [], Metadata = [],
                  RequestTime = now e, ResponseTime = 0, Duration = 0\<rparr>;
          body =
            (case requester of
               Some (MavlinkRequester t) \<Rightarrow>
                 (case send_result e of
                    Some txt \<Rightarrow>
                      (let lg' = lg\<lparr>Error := txt\<rparr>
                       in Some (mavlink_add m lg', lg', Some (New txt)))
                  | None \<Rightarrow> await m lg (steps e))
             | _ \<Rightarrow>
                 (let lg' = lg\<lparr>Error := ''errors interface mismatch''\<rparr>
                  in Some (mavlink_add m lg', lg', Some (New ''error interface mismatch''))))
      in map_option (\<lambda>(m', lg', err). (m'\<lparr>mav_index := mav_index m' + 1\<rparr>, lg', err)) body)"

text \<open>\<open>AT.Message.Process\<close>: one synchronous command; it always returns.\<close>

definition AT_Process :: "AT_Message \<Rightarrow> Requester option \<Rightarrow> env \<Rightarrow>
    AT_Message \<times> LogEntry \<times> error option" where
  "AT_Process m requester e =
     (let lg = \<lparr>Index = at_index m, MessageType = AT_GetType m, MessageID = None,
                  Success = False, Data = None, Error = [], Metadata = [],
                  RequestTime = now e, ResponseTime = 0, Duration = 0\<rparr>;
          body =
            (case requester of
               Some ATRequester \<Rightarrow>
                 (case command_result e of
                    Inl txt \<Rightarrow>
                      (let lg' = lg\<lparr>Error := ''error while sending AT commands: '' @ txt\<rparr>
                       in (AT_add m lg', lg',
                           Some (Wrap ''error while sending AT commands: '' (New txt))))
                  | Inr data \<Rightarrow>
                      (let lg' = lg\<lparr>Success := True, Data := Some (ATPayload data),
                                        ResponseTime := now_after e,
                                        Duration := Time_Sub (now_after e) (RequestTime lg)\<rparr>
                       in (AT_add m lg', lg', None)))
             | _ \<Rightarrow>
                 (let lg' = lg\<lparr>Error := ''errors interface mismatch''\<rparr>
                  in (AT_add m lg', lg', Some (New ''error interface mismatch''))))
      in case body of (m', lg', err) \<Rightarrow> (m'\<lparr>at_index := at_index m' + 1\<rparr>, lg', err))"

text \<open>
  The interface methods. \<open>Message.Process\<close> dispatches on the message; both requesters'
  \<open>Process\<close> are \<open>return messages.Process(r)\<close>; \<open>Request\<close> calls \<open>Process\<close> on the
  Processor's backend field without looking at it first, and a method call on a nil
  interface value is a run-time panic (nil pointer dereference).
\<close>

datatype 'a outcome = Panics | NoReturn | Returns 'a

fun Message_Process :: "Message \<Rightarrow> Requester option \<Rightarrow> env \<Rightarrow>
    (Message \<times> LogEntry \<times> error option) option" where
  "Message_Process (MavlinkMsg m) requester e =
     map_option (\<lambda>(m', lg, err). (MavlinkMsg m', lg, err)) (mavlink_Process m requester e)"
| "Message_Process (ATMsg m) requester e =
     (case AT_Process m requester e of (m', lg, err) \<Rightarrow> Some (ATMsg m', lg, err))"


definition Requester_Process :: "Requester \<Rightarrow> Message \<Rightarrow> env \<Rightarrow>
    (Message \<times> LogEntry \<times> error option) option" where
  "Requester_Process r msg e = Message_Process msg (Some r) e"

fun Message_Request :: "Message \<Rightarrow> Processor \<Rightarrow> env \<Rightarrow>
    (Message \<times> LogEntry \<times> error option) outcome" where
  "Message_Request (MavlinkMsg m) p e =
     (case Mavlink p of
        None \<Rightarrow> Panics
      | Some r \<Rightarrow>
          (case Requester_Process r (MavlinkMsg m) e of None \<Rightarrow> NoReturn | Some x \<Rightarrow> Returns x))"
| "Message_Request (ATMsg m) p e =
     (case AT p of
        None \<Rightarrow> Panics
      | Some r \<Rightarrow>
          (case Requester_Process r (ATMsg m) e of None \<Rightarrow> NoReturn | Some x \<Rightarrow> Returns x))"

section \<open>Close\<close>

text \<open>
  \<open>Close\<close>. The body given to \<open>p.once.Do\<close> runs on the first call only. It cancels the
  context, waits for the loop (\<open>p.wg.Wait()\<close>) and closes the Writer. The loop is the one
  background worker: \<open>pending\<close> are the cases its \<open>select\<close> still takes before it takes
  the case of the cancelled context. \<open>err\<close> is a local variable of each call, nil at the
  start, and is assigned only inside the body.
\<close>

definition shutdown :: "Processor \<Rightarrow> loop_case list \<Rightarrow> (Processor \<times> error option) outcome" where
  \<comment> \<open>the function given to \<open>p.once.Do\<close>; the error is the value it leaves in \<open>err\<close>\<close>
  "shutdown p pending =
     (let p' = (if has_cancel p then p\<lparr>ctx_done := True\<rparr> else p)
      in if wg p' \<noteq> 0 \<and> \<not> ctx_done p' then NoReturn
         else
           (case (if wg p' = 0 then Returned p' else loop p' (pending @ [CtxDone])) of
              Panicked \<Rightarrow> Panics
            | Blocked q \<Rightarrow> NoReturn
            | Returned q \<Rightarrow>
                (case writer q of
                   None \<Rightarrow> Returns (q, None)
                 | Some w \<Rightarrow>
                     (case Writer_Close w of
                        (w', None) \<Rightarrow> Returns (q\<lparr>writer := Some w'\<rparr>, None)
                      | (w', Some e) \<Rightarrow>
                          Returns (q\<lparr>writer := Some w'\<rparr>,
                                   multierr_Append None (Wrap ''error closing writer: '' e))))))"

definition Close :: "Processor \<Rightarrow> loop_case list \<Rightarrow> (Processor \<times> error option) outcome" where
  "Close p pending =
     (case (if once p then Returns (p, None) else shutdown (p\<lparr>once := True\<rparr>) pending) of
        Returns (p', None) \<Rightarrow> Returns (p', None)
      | Returns (p', Some err) \<Rightarrow>
          Returns (p', Some (Wrap ''error while closing processor: '' err))
      | Panics \<Rightarrow> Panics
      | NoReturn \<Rightarrow> NoReturn)"

definition closes :: "Processor \<Rightarrow> nat" where
  \<comment> \<open>how often the Writer of the Processor has been closed\<close>
  "closes p = (case writer p of None \<Rightarrow> 0 | Some w \<Rightarrow> close_calls w)"

definition close_outcome :: "Processor \<Rightarrow> error option" where
  \<comment> \<open>what \<open>Close\<close> of the Writer of the Processor returns (nil without a Writer)\<close>
  "close_outcome p = (case writer p of None \<Rightarrow> None | Some w \<Rightarrow> close_result w)"

section \<open>The message store and the identity of messages\<close>

text \<open>
  Message objects live in a store; \<open>NewMessage\<close> allocates a new object and returns its
  address. The identity key the specification speaks of is the message id of a telemetry
  message and the command string of a modem message.
\<close>

type_synonym store = "Message list"

definition alloc :: "store \<Rightarrow> Message \<Rightarrow> store \<times> ptr" where
  "alloc st m = (st @ [m], length st)"

definition deref :: "store \<Rightarrow> ptr \<Rightarrow> Message option" where
  "deref st a = (if a < length st then Some (st ! a) else None)"

datatype identity = TelemetryId "32 word" | ModemCommand string

fun identity_key :: "Message \<Rightarrow> identity" where
  "identity_key (MavlinkMsg m) = TelemetryId (mav_id m)"
| "identity_key (ATMsg m) = ModemCommand (at_cmd m)"

definition Process_at :: "store \<Rightarrow> ptr \<Rightarrow> Requester option \<Rightarrow> env \<Rightarrow>
    (store \<times> LogEntry \<times> error option) option" where
  \<comment> \<open>\<open>Process\<close> called through the pointer \<open>a\<close>: the object at \<open>a\<close> is updated in place\<close>
  "Process_at st a requester e =
     (case deref st a of
        None \<Rightarrow> None
      | Some m \<Rightarrow>
          map_option (\<lambda>(m', lg, err). (st[a := m'], lg, err)) (Message_Process m requester e))"


section \<open>Statistics\<close>










section \<open>The CSV writer\<close>

text \<open>
  \<open>csv.Writer\<close> buffers records on their way to the file; an I/O error of the buffered
  writer is sticky, and \<open>Write\<close> returns it without taking the record. The records taken
  so far and the sticky error are its state. The renderings that \<open>fmt.Sprintf("%v", x)\<close>,
  \<open>Time.Format(time.RFC3339Nano)\<close> and \<open>fmt.Sprintf("%.2f", float64(d.Nanoseconds())/1e6)\<close>
  produce are parameters.
\<close>

record csv_Writer =
  records :: "string list list"
  sticky :: "error option"

definition csv_Write :: "csv_Writer \<Rightarrow> string list \<Rightarrow> csv_Writer \<times> error option" where
  "csv_Write w r =
     (case sticky w of
        Some e \<Rightarrow> (w, Some e)
      | None \<Rightarrow> (w\<lparr>records := records w @ [r]\<rparr>, None))"

record formats =
  Sprintf_v :: "payload option \<Rightarrow> string"
  Format_RFC3339Nano :: "time \<Rightarrow> string"
  Sprintf_2f_ms :: "duration \<Rightarrow> string"

definition Sprintf_t :: "bool \<Rightarrow> string" where
  "Sprintf_t b = (if b then ''true'' else ''false'')"

record CSVWriter =
  csv_writer :: csv_Writer
  header :: bool

definition csv_header :: "string list" where
  "csv_header =
     [''index'', ''message_type'', ''message_id'', ''timestamp'',
      ''success'', ''data'', ''error'', ''request_time'',
      ''response_time'', ''duration_ms'']"

definition csv_record :: "formats \<Rightarrow> LogEntry \<Rightarrow> string list" where
  "csv_record f entry =
     [Sprintf_d (unat (Index entry)),
      MessageType entry,
      Sprintf_v f (MessageID entry),
      Sprintf_t (Success entry),
      Sprintf_v f (Data entry),
      Error entry,
      Format_RFC3339Nano f (RequestTime entry),
      Format_RFC3339Nano f (ResponseTime entry),
      Sprintf_2f_ms f (Duration entry)]"

fun csv_entries :: "formats \<Rightarrow> CSVWriter \<Rightarrow> LogEntry list \<Rightarrow> CSVWriter \<times> error option" where
  "csv_entries f w [] = (w, sticky (csv_writer w))"
| "csv_entries f w (entry # entries) =
     (case csv_Write (csv_writer w) (csv_record f entry) of
        (cw, Some err) \<Rightarrow> (w\<lparr>csv_writer := cw\<rparr>, Some err)
      | (cw, None) \<Rightarrow> csv_entries f (w\<lparr>csv_writer := cw\<rparr>) entries)"

definition CSVWriter_Write :: "formats \<Rightarrow> CSVWriter \<Rightarrow> LogEntry list \<Rightarrow>
    CSVWriter \<times> error option" where
  "CSVWriter_Write f w entries =
     (if \<not> header w
      then (case csv_Write (csv_writer w) csv_header of
              (cw, Some err) \<Rightarrow> (w\<lparr>csv_writer := cw\<rparr>, Some err)
            | (cw, None) \<Rightarrow> csv_entries f (w\<lparr>csv_writer := cw, header := True\<rparr>) entries)
      else csv_entries f w entries)"

definition NewCSVWriter :: CSVWriter where
  "NewCSVWriter = \<lparr>csv_writer = \<lparr>records = [], sticky = None\<rparr>, header = False\<rparr>"

fun CSVWriter_Writes :: "formats \<Rightarrow> CSVWriter \<Rightarrow> LogEntry list list \<Rightarrow> CSVWriter" where
  \<comment> \<open>a sequence of \<open>Write\<close> calls, one per batch\<close>
  "CSVWriter_Writes f w [] = w"
| "CSVWriter_Writes f w (batch # batches) =
     CSVWriter_Writes f (fst (CSVWriter_Write f w batch)) batches"

section \<open>The binary writer\<close>

text \<open>
  The file is the bytes written so far and the fate of the coming \<open>write\<close> calls
  (\<open>faults\<close>: an error text or success, success once the list is used up).
  \<open>json.Marshal\<close> is a parameter: it returns the encoding or an error (it refuses, for
  example, a floating-point field that is NaN or infinite). \<open>uint32(len(data))\<close> keeps
  the low 32 bits of the length.
\<close>

record os_File =
  contents :: "8 word list"
  faults :: "string option list"

definition File_Write :: "os_File \<Rightarrow> 8 word list \<Rightarrow> os_File \<times> error option" where
  "File_Write f bs =
     (case faults f of
        [] \<Rightarrow> (f\<lparr>contents := contents f @ bs\<rparr>, None)
      | None # rest \<Rightarrow> (f\<lparr>contents := contents f @ bs, faults := rest\<rparr>, None)
      | Some txt # rest \<Rightarrow> (f\<lparr>faults := rest\<rparr>, Some (New txt)))"

definition LittleEndian_uint32 :: "32 word \<Rightarrow> 8 word list" where
  "LittleEndian_uint32 v =
     [ucast v, ucast (drop_bit 8 v), ucast (drop_bit 16 v), ucast (drop_bit 24 v)]"

fun BinaryWriter_Write :: "(LogEntry \<Rightarrow> string + 8 word list) \<Rightarrow> os_File \<Rightarrow> LogEntry list \<Rightarrow>
    os_File \<times> error option" where
  "BinaryWriter_Write Marshal file [] = (file, None)"
| "BinaryWriter_Write Marshal file (entry # entries) =
     (case Marshal entry of
        Inl txt \<Rightarrow> (file, Some (New txt))
      | Inr data \<Rightarrow>
          (let length' = (of_nat (length data) :: 32 word)
           in case File_Write file (LittleEndian_uint32 length') of
                (file1, Some err) \<Rightarrow> (file1, Some err)
              | (file1, None) \<Rightarrow>
                  (case File_Write file1 data of
                     (file2, Some err) \<Rightarrow> (file2, Some err)
                   | (file2, None) \<Rightarrow> BinaryWriter_Write Marshal file2 entries)))"

text \<open>
  Modelled from the spec: the repository has no reader of the binary stream. The spec
  describes the stream as "repeated [uint32 little-endian length][length bytes of
  JSON-encoded LogEntry]" and asks that a reader "handle truncated final records as a
  recoverable end-of-stream condition": the reader below returns the payloads of the
  complete records and stops at the end of the stream or at a truncated record.
\<close>

definition uint32_of_LittleEndian :: "8 word \<Rightarrow> 8 word \<Rightarrow> 8 word \<Rightarrow> 8 word \<Rightarrow> 32 word" where
  "uint32_of_LittleEndian b0 b1 b2 b3 =
     of_nat (unat b0 + 256 * unat b1 + 65536 * unat b2 + 16777216 * unat b3)"

fun read_records :: "8 word list \<Rightarrow> 8 word list list" where
  "read_records (b0 # b1 # b2 # b3 # rest) =
     (let n = unat (uint32_of_LittleEndian b0 b1 b2 b3)
      in if length rest < n then []
         else take n rest # read_records (drop n rest))"
| "read_records _ = []"

text \<open>
  The record format in the words of the specification: a frame is "a 4-byte little-endian
  unsigned length prefix followed by that many payload bytes"; the payload of an entry is
  its JSON encoding.
\<close>

definition frame :: "8 word list \<Rightarrow> 8 word list" where
  "frame data = LittleEndian_uint32 (of_nat (length data)) @ data"

definition encoding :: "(LogEntry \<Rightarrow> string + 8 word list) \<Rightarrow> LogEntry \<Rightarrow> 8 word list" where
  "encoding Marshal entry = (case Marshal entry of Inl txt \<Rightarrow> [] | Inr data \<Rightarrow> data)"

section \<open>Concrete states used to exercise the model\<close>

definition ex_entry :: "nat \<Rightarrow> bool \<Rightarrow> duration \<Rightarrow> LogEntry" where
  "ex_entry i ok d =
     \<lparr>Index = of_nat i, MessageType = ''at-+CSQ'', MessageID = None, Success = ok,
      Data = (if ok then Some (ATPayload [''+CSQ: 20,99'']) else None),
      Error = (if ok then [] else ''error while sending AT commands: timeout''), Metadata = [],
      RequestTime = 1000, ResponseTime = (if ok then 1000 + d else 0), Duration = d\<rparr>"

definition ex_writer :: Writer where
  "ex_writer = \<lparr>written = [], write_results = [Some (New ''disk full'')], close_calls = 0,
                 close_result = None\<rparr>"

definition ex_processor :: Processor where
  "ex_processor =
     \<lparr>Mavlink = None, AT = Some ATRequester, messages = [0], interval = 1000000000,
      writer = Some ex_writer, ctx_done = False, has_cancel = True, once = False, wg = 1,
      logBatchSize = 2, logBuffer = []\<rparr>"

definition ex_cases :: "loop_case list" where
  "ex_cases =
     [TickerC [(ex_entry 0 True 5, None)],
      TickerC [(ex_entry 1 False 0, Some (New ''timeout'')), (ex_entry 2 True 7, None)],
      LogTickerC,
      TickerC [(ex_entry 3 True 9, None)]]"

definition ex_at_message :: AT_Message where
  "ex_at_message = \<lparr>at_index = 7, at_messages = [ex_entry 6 True 5], at_cmd = ''+CSQ''\<rparr>"

definition ex_mav_message :: mavlink_Message where
  "ex_mav_message = \<lparr>mav_index = 3, mav_messages = [], mav_id = 27\<rparr>"






definition ex_env :: "wait_step list \<Rightarrow> env" where
  "ex_env ss = \<lparr>now = 1000, send_result = None, steps = ss,
                command_result = Inr [''+CSQ: 20,99''], now_after = 1040\<rparr>"

definition ex_mavlink :: "Requester option" where
  "ex_mavlink = Some (MavlinkRequester 5000000000)"


definition ex_failing :: Processor where
  \<comment> \<open>a running Processor whose Writer fails to close\<close>
  "ex_failing = ex_processor\<lparr>writer := Some (ex_writer\<lparr>close_result := Some (New ''sync failed'')\<rparr>)\<rparr>"

definition ex_failing_closed :: Processor where
  "ex_failing_closed =
     ex_processor\<lparr>writer := Some (ex_writer\<lparr>close_result := Some (New ''sync failed''),
                                             close_calls := 1\<rparr>),
                  once := True, ctx_done := True, wg := 0\<rparr>"

definition ex_store :: store where
  \<comment> \<open>two message objects made by \<open>AT.NewMessage("+CSQ")\<close>, at the addresses 0 and 1\<close>
  "ex_store = fst (alloc (fst (alloc [] (ATMsg (AT_NewMessage ''+CSQ''))))
                         (ATMsg (AT_NewMessage ''+CSQ'')))"

definition ex_empty :: Processor where
  "ex_empty = ex_processor\<lparr>messages := []\<rparr>"

text \<open>
  A stand-in for \<open>json.Marshal\<close> and its inverse, enough to run the binary writer: the
  encoding holds the index and the success flag of an entry, and an entry whose payload is
  a telemetry message without fields is refused, as \<open>json.Marshal\<close> refuses a value it
  cannot encode.
\<close>

definition ex_Marshal :: "LogEntry \<Rightarrow> string + 8 word list" where
  "ex_Marshal entry =
     (if Data entry = Some (MavPayload \<lparr>msg_type = 27, msg_fields = []\<rparr>)
      then Inl ''json: unsupported value: NaN''
      else Inr [ucast (Index entry), if Success entry then 1 else 0])"

definition ex_Unmarshal :: "8 word list \<Rightarrow> LogEntry option" where
  "ex_Unmarshal bs =
     (case bs of [i, s] \<Rightarrow> Some (ex_entry (unat i) (s = 1) 0) | _ \<Rightarrow> None)"

definition ex_refused :: LogEntry where
  "ex_refused = (ex_entry 5 True 0)\<lparr>Data := Some (MavPayload \<lparr>msg_type = 27, msg_fields = []\<rparr>)\<rparr>"

definition ex_file :: os_File where
  "ex_file = \<lparr>contents = [], faults = []\<rparr>"


section \<open>No entry is lost or duplicated\<close>

lemma flushLogsUnsafe_handed:
  assumes "writer p \<noteq> None"
  shows "\<exists>p'. flushLogsUnsafe p = Some p' \<and> writer p' \<noteq> None \<and> logBuffer p' = []
           \<and> handed p' = handed p @ logBuffer p
           \<and> logBatchSize p' = logBatchSize p"
  using assms
  by (auto simp: flushLogsUnsafe_def handed_def Writer_Write_def split: option.splits)

lemma addLogEntry_handed:
  assumes "writer p \<noteq> None"
  shows "\<exists>p'. addLogEntry p e = Some p' \<and> writer p' \<noteq> None
           \<and> handed p' @ logBuffer p' = handed p @ logBuffer p @ [e]
           \<and> logBatchSize p' = logBatchSize p"
proof (cases "length (logBuffer p @ [e]) \<ge> logBatchSize p")
  case True
  let ?q = "p\<lparr>logBuffer := logBuffer p @ [e]\<rparr>"
  have "writer ?q \<noteq> None" using assms by simp
  from flushLogsUnsafe_handed [OF this] obtain p' where
    "flushLogsUnsafe ?q = Some p'" "writer p' \<noteq> None" "logBuffer p' = []"
    "handed p' = handed ?q @ logBuffer ?q" "logBatchSize p' = logBatchSize ?q"
    by blast
  with True show ?thesis
    by (simp add: addLogEntry_def Let_def handed_def)
next
  case False
  then show ?thesis using assms
    by (simp add: addLogEntry_def Let_def handed_def)
qed

lemma request_from_handed:
  assumes "writer p \<noteq> None"
  shows "\<exists>p' err'. request_from err p results = Some (p', err') \<and> writer p' \<noteq> None
           \<and> handed p' @ logBuffer p' = handed p @ logBuffer p @ map fst results"
  using assms
proof (induction results arbitrary: p err)
  case Nil
  then show ?case by simp
next
  case (Cons r results)
  obtain lg e where r: "r = (lg, e)" by (cases r)
  from addLogEntry_handed [OF Cons.prems, of lg] obtain p1 where
    p1: "addLogEntry p lg = Some p1" "writer p1 \<noteq> None"
        "handed p1 @ logBuffer p1 = handed p @ logBuffer p @ [lg]"
    by blast
  let ?err = "case e of None \<Rightarrow> err | Some e' \<Rightarrow> multierr_Append err e'"
  from Cons.IH [OF p1(2), of ?err] obtain p' err' where
    "request_from ?err p1 results = Some (p', err')" "writer p' \<noteq> None"
    "handed p' @ logBuffer p' = handed p1 @ logBuffer p1 @ map fst results"
    by blast
  with p1 r show ?case by (simp add: Let_def)
qed

lemma loop_handed:
  assumes "writer p \<noteq> None" and "CtxDone \<notin> set cs"
  shows "\<exists>p'. loop p (cs @ [CtxDone]) = Returned p' \<and> writer p' \<noteq> None \<and> logBuffer p' = []
           \<and> handed p' = handed p @ logBuffer p @ concat (map tick_entries cs)"
  using assms
proof (induction cs arbitrary: p)
  case Nil
  from flushLogsUnsafe_handed [OF Nil(1)] obtain p' where
    "flushLogsUnsafe p = Some p'" "writer p' \<noteq> None" "logBuffer p' = []"
    "handed p' = handed p @ logBuffer p"
    by blast
  then show ?case by (simp add: flushLogs_def handed_def)
next
  case (Cons c cs)
  show ?case
  proof (cases c)
    case CtxDone
    with Cons.prems show ?thesis by simp
  next
    case (TickerC results)
    from request_from_handed [OF Cons.prems(1), of None results] obtain p1 err1 where
      p1: "request_from None p results = Some (p1, err1)" "writer p1 \<noteq> None"
          "handed p1 @ logBuffer p1 = handed p @ logBuffer p @ map fst results"
      by blast
    from Cons.prems have "CtxDone \<notin> set cs" by simp
    from Cons.IH [OF p1(2) this] obtain p' where
      "loop p1 (cs @ [CtxDone]) = Returned p'" "writer p' \<noteq> None" "logBuffer p' = []"
      "handed p' = handed p1 @ logBuffer p1 @ concat (map tick_entries cs)"
      by blast
    with p1 TickerC show ?thesis by (simp add: request_def)
  next
    case LogTickerC
    from flushLogsUnsafe_handed [OF Cons.prems(1)] obtain p1 where
      p1: "flushLogsUnsafe p = Some p1" "writer p1 \<noteq> None" "logBuffer p1 = []"
          "handed p1 = handed p @ logBuffer p"
      by blast
    from Cons.prems have "CtxDone \<notin> set cs" by simp
    from Cons.IH [OF p1(2) this] obtain p' where
      "loop p1 (cs @ [CtxDone]) = Returned p'" "writer p' \<noteq> None" "logBuffer p' = []"
      "handed p' = handed p1 @ logBuffer p1 @ concat (map tick_entries cs)"
      by blast
    with p1 LogTickerC show ?thesis by (simp add: flushLogs_def)
  qed
qed

text \<open>
  C1. Whatever request ticks and log ticks the loop takes before the context is done, it
  then returns, and the entries handed to \<open>Write\<close> over all flushes (on size, on the log
  ticker, at shutdown) are, in order and each once, the entries handed before, the entries
  that were waiting in the buffer and all entries the ticks appended; the buffer is left
  empty. What \<open>Write\<close> returns plays no role.
\<close>

theorem C1_no_entry_lost_or_duplicated:
  assumes "writer p \<noteq> None" and "CtxDone \<notin> set cs"
  shows "\<exists>p'. loop p (cs @ [CtxDone]) = Returned p' \<and> logBuffer p' = []
           \<and> handed p' = handed p @ logBuffer p @ concat (map tick_entries cs)
           \<and> length (handed p') =
               length (handed p) + length (logBuffer p) + length (concat (map tick_entries cs))"
proof -
  from loop_handed [OF assms] obtain p' where
    p': "loop p (cs @ [CtxDone]) = Returned p'" "logBuffer p' = []"
        "handed p' = handed p @ logBuffer p @ concat (map tick_entries cs)"
    by blast
  from p'(3) have "length (handed p') =
      length (handed p) + length (logBuffer p) + length (concat (map tick_entries cs))"
    by simp
  with p' show ?thesis by blast
qed

theorem C1_no_entry_lost_or_duplicated_witness:
  "writer ex_processor \<noteq> None \<and> CtxDone \<notin> set ex_cases \<and>
   (\<exists>p'. loop ex_processor (ex_cases @ [CtxDone]) = Returned p' \<and> logBuffer p' = []
      \<and> handed p' = [ex_entry 0 True 5, ex_entry 1 False 0, ex_entry 2 True 7, ex_entry 3 True 9])"
proof -
  have a: "writer ex_processor \<noteq> None" by (simp add: ex_processor_def)
  have b: "CtxDone \<notin> set ex_cases" by (simp add: ex_cases_def)
  from C1_no_entry_lost_or_duplicated [OF a b] obtain p' where
    p': "loop ex_processor (ex_cases @ [CtxDone]) = Returned p'" "logBuffer p' = []"
        "handed p' = handed ex_processor @ logBuffer ex_processor
                       @ concat (map tick_entries ex_cases)"
    by blast
  have "handed ex_processor @ logBuffer ex_processor @ concat (map tick_entries ex_cases)
          = [ex_entry 0 True 5, ex_entry 1 False 0, ex_entry 2 True 7, ex_entry 3 True 9]"
    by (simp add: ex_processor_def ex_cases_def handed_def ex_writer_def)
  with p' a b show ?thesis by auto
qed

section \<open>Message.Process\<close>






section \<open>Cancellation and timeout of a telemetry request\<close>









section \<open>What a cancelled request returns\<close>





section \<open>Request on an absent backend\<close>

text \<open>
  C3, as the code has it. \<open>Request\<close> calls \<open>Process\<close> on the backend handle of the
  Processor without looking at the handle. With the handle absent (nil) the call is a nil
  dereference: it panics, and neither an entry nor an error is returned. With the handle
  present \<open>Request\<close> gives what the backend's \<open>Process\<close> gives; for a modem message
  that is always a return.
\<close>

theorem C3_request_on_backend:
  "(Mavlink p = None \<longrightarrow> Message_Request (MavlinkMsg m) p e = Panics)
   \<and> (AT p = None \<longrightarrow> Message_Request (ATMsg a) p e = Panics)
   \<and> (AT p = Some r \<longrightarrow>
        (\<exists>a' lg err. AT_Process a (Some r) e = (a', lg, err)
           \<and> Message_Request (ATMsg a) p e = Returns (ATMsg a', lg, err)))
   \<and> (Mavlink p = Some r \<longrightarrow>
        Message_Request (MavlinkMsg m) p e
          = (case mavlink_Process m (Some r) e of
               None \<Rightarrow> NoReturn
             | Some (m', lg, err) \<Rightarrow> Returns (MavlinkMsg m', lg, err)))"
  by (auto simp: Requester_Process_def split: option.splits prod.splits)

theorem C3_request_on_backend_witness:
  "Mavlink ex_processor = None
   \<and> Message_Request (MavlinkMsg ex_mav_message) ex_processor (ex_env []) = Panics
   \<and> AT (ex_processor\<lparr>AT := None\<rparr>) = None
   \<and> Message_Request (ATMsg ex_at_message) (ex_processor\<lparr>AT := None\<rparr>) (ex_env []) = Panics
   \<and> AT ex_processor = Some ATRequester
   \<and> (\<exists>a' lg err. Message_Request (ATMsg ex_at_message) ex_processor (ex_env [])
                      = Returns (ATMsg a', lg, err))
   \<and> Mavlink (ex_processor\<lparr>Mavlink := ex_mavlink\<rparr>) = Some (MavlinkRequester 5000000000)
   \<and> Message_Request (MavlinkMsg ex_mav_message) (ex_processor\<lparr>Mavlink := ex_mavlink\<rparr>)
        (ex_env []) = NoReturn"
proof -
  have a: "Mavlink ex_processor = None" "AT (ex_processor\<lparr>AT := None\<rparr>) = None"
    "AT ex_processor = Some ATRequester"
    "Mavlink (ex_processor\<lparr>Mavlink := ex_mavlink\<rparr>) = Some (MavlinkRequester 5000000000)"
    by (simp_all add: ex_processor_def ex_mavlink_def)
  have b: "mavlink_Process ex_mav_message (Some (MavlinkRequester 5000000000)) (ex_env []) = None"
    by (simp add: mavlink_Process_def ex_env_def Let_def)
  note T1 = C3_request_on_backend
    [where p = ex_processor and m = ex_mav_message and a = ex_at_message and e = "ex_env []"
       and r = ATRequester]
  note T2 = C3_request_on_backend
    [where p = "ex_processor\<lparr>AT := None\<rparr>" and a = ex_at_message and e = "ex_env []"]
  note T3 = C3_request_on_backend
    [where p = "ex_processor\<lparr>Mavlink := ex_mavlink\<rparr>" and m = ex_mav_message
       and e = "ex_env []" and r = "MavlinkRequester 5000000000"]
  from T1 a have c: "Message_Request (MavlinkMsg ex_mav_message) ex_processor (ex_env []) = Panics"
    "\<exists>a' lg err. Message_Request (ATMsg ex_at_message) ex_processor (ex_env [])
                      = Returns (ATMsg a', lg, err)"
    by blast+
  from T2 a have d:
    "Message_Request (ATMsg ex_at_message) (ex_processor\<lparr>AT := None\<rparr>) (ex_env []) = Panics"
    by blast
  from T3 a(4) have g:
    "Message_Request (MavlinkMsg ex_mav_message) (ex_processor\<lparr>Mavlink := ex_mavlink\<rparr>)
        (ex_env [])
      = (case mavlink_Process ex_mav_message (Some (MavlinkRequester 5000000000)) (ex_env []) of
           None \<Rightarrow> NoReturn
         | Some (m', lg, err) \<Rightarrow> Returns (MavlinkMsg m', lg, err))"
    by blast
  have f:
    "Message_Request (MavlinkMsg ex_mav_message) (ex_processor\<lparr>Mavlink := ex_mavlink\<rparr>)
        (ex_env []) = NoReturn"
    unfolding g b by simp
  from a c d f show ?thesis by blast
qed

text \<open>
  The claim as stated fails: a telemetry message asked of a Processor without a telemetry
  backend does not return a configuration error, it panics.
\<close>

theorem C3_absent_backend_panics:
  "Mavlink ex_processor = None
   \<and> Message_Request (MavlinkMsg ex_mav_message) ex_processor (ex_env []) = Panics"
  by (simp add: ex_processor_def)

section \<open>Close\<close>

lemma flushLogsUnsafe_control:
  assumes "flushLogsUnsafe p = Some q"
  shows "once q = once p \<and> ctx_done q = ctx_done p \<and> has_cancel q = has_cancel p
           \<and> wg q = wg p \<and> closes q = closes p \<and> close_outcome q = close_outcome p"
  using assms
  by (auto simp: flushLogsUnsafe_def Writer_Write_def closes_def close_outcome_def
           split: if_splits option.splits)

lemma addLogEntry_control:
  assumes "addLogEntry p lg = Some q"
  shows "once q = once p \<and> ctx_done q = ctx_done p \<and> has_cancel q = has_cancel p
           \<and> wg q = wg p \<and> closes q = closes p \<and> close_outcome q = close_outcome p"
proof (cases "length (logBuffer p @ [lg]) \<ge> logBatchSize p")
  case True
  with assms have "flushLogsUnsafe (p\<lparr>logBuffer := logBuffer p @ [lg]\<rparr>) = Some q"
    by (simp add: addLogEntry_def Let_def)
  from flushLogsUnsafe_control [OF this] show ?thesis
    by (simp add: closes_def close_outcome_def)
next
  case False
  with assms have "q = p\<lparr>logBuffer := logBuffer p @ [lg]\<rparr>"
    by (simp add: addLogEntry_def Let_def)
  then show ?thesis by (simp add: closes_def close_outcome_def)
qed

lemma request_from_control:
  assumes "request_from err p results = Some (q, err')"
  shows "once q = once p \<and> ctx_done q = ctx_done p \<and> has_cancel q = has_cancel p
           \<and> wg q = wg p \<and> closes q = closes p \<and> close_outcome q = close_outcome p"
  using assms
proof (induction results arbitrary: p err)
  case Nil
  then show ?case by simp
next
  case (Cons r results)
  obtain lg e where r: "r = (lg, e)" by (cases r)
  with Cons.prems obtain p1 where
    p1: "addLogEntry p lg = Some p1"
    and rest: "request_from (case e of None \<Rightarrow> err | Some e' \<Rightarrow> multierr_Append err e') p1 results
                 = Some (q, err')"
    by (auto simp: Let_def split: option.splits)
  from Cons.IH [OF rest] addLogEntry_control [OF p1] show ?case by simp
qed

lemma loop_control:
  assumes "loop p cs = Returned q"
  shows "once q = once p \<and> ctx_done q = ctx_done p \<and> has_cancel q = has_cancel p
           \<and> wg q = wg p - 1 \<and> closes q = closes p \<and> close_outcome q = close_outcome p
           \<and> logBuffer q = []"
  using assms
proof (induction cs arbitrary: p)
  case Nil
  then show ?case by simp
next
  case (Cons c cs)
  show ?case
  proof (cases c)
    case CtxDone
    with Cons.prems obtain p1 where
      p1: "flushLogsUnsafe p = Some p1" and q: "q = p1\<lparr>wg := wg p1 - 1\<rparr>"
      by (auto simp: flushLogs_def split: option.splits)
    from p1 have "logBuffer p1 = []"
      by (auto simp: flushLogsUnsafe_def Writer_Write_def split: if_splits option.splits)
    with flushLogsUnsafe_control [OF p1] q show ?thesis
      by (simp add: closes_def close_outcome_def)
  next
    case (TickerC results)
    with Cons.prems obtain p1 err1 where
      p1: "request_from None p results = Some (p1, err1)" and rest: "loop p1 cs = Returned q"
      by (auto simp: request_def split: option.splits)
    from Cons.IH [OF rest] request_from_control [OF p1] show ?thesis by simp
  next
    case LogTickerC
    with Cons.prems obtain p1 where
      p1: "flushLogsUnsafe p = Some p1" and rest: "loop p1 cs = Returned q"
      by (auto simp: flushLogs_def split: option.splits)
    from Cons.IH [OF rest] flushLogsUnsafe_control [OF p1] show ?thesis by simp
  qed
qed

lemma shutdown_effect:
  assumes "shutdown p pending = Returns (q, r)"
  shows "once q = once p \<and> (has_cancel p \<longrightarrow> ctx_done q)
           \<and> closes q = (if writer p = None then 0 else Suc (closes p))
           \<and> ((r = None) = (close_outcome p = None))"
proof -
  define p' where "p' = (if has_cancel p then p\<lparr>ctx_done := True\<rparr> else p)"
  have p'_same: "once p' = once p" "closes p' = closes p" "close_outcome p' = close_outcome p"
    "has_cancel p \<longrightarrow> ctx_done p'" "writer p' = writer p"
    by (simp_all add: p'_def closes_def close_outcome_def)
  from assms obtain q0 where
    q0: "(if wg p' = 0 then Returned p' else loop p' (pending @ [CtxDone])) = Returned q0"
    and fin: "(case writer q0 of
                 None \<Rightarrow> Returns (q0, None)
               | Some w \<Rightarrow>
                   (case Writer_Close w of
                      (w', None) \<Rightarrow> Returns (q0\<lparr>writer := Some w'\<rparr>, None)
                    | (w', Some e) \<Rightarrow>
                        Returns (q0\<lparr>writer := Some w'\<rparr>,
                                 multierr_Append None (Wrap ''error closing writer: '' e))))
              = Returns (q, r)"
    unfolding shutdown_def p'_def [symmetric] Let_def
    by (auto split: if_splits run.splits)
  have q0_same: "once q0 = once p'" "ctx_done q0 = ctx_done p'" "closes q0 = closes p'"
    "close_outcome q0 = close_outcome p'"
  proof -
    show "once q0 = once p'" using q0 loop_control by (auto split: if_splits)
    show "ctx_done q0 = ctx_done p'" using q0 loop_control by (auto split: if_splits)
    show "closes q0 = closes p'" using q0 loop_control by (auto split: if_splits)
    show "close_outcome q0 = close_outcome p'" using q0 loop_control by (auto split: if_splits)
  qed
  have none_iff: "writer q0 = None \<longleftrightarrow> writer p = None"
  proof (cases "wg p' = 0")
    case True
    with q0 p'_same show ?thesis by simp
  next
    case False
    with q0 have l: "loop p' (pending @ [CtxDone]) = Returned q0" by simp
    show ?thesis
    proof (cases "writer p'")
      case None
      have "\<And>q. loop p1 cs = Returned q \<Longrightarrow> writer p1 = None \<Longrightarrow> writer q = None" for p1 cs
      proof (induction cs arbitrary: p1)
        case Nil
        then show ?case by simp
      next
        case (Cons c cs)
        have fl: "flushLogsUnsafe x = Some y \<Longrightarrow> writer x = None \<Longrightarrow> writer y = None" for x y
          by (auto simp: flushLogsUnsafe_def split: if_splits)
        have ad: "addLogEntry x lg = Some y \<Longrightarrow> writer x = None \<Longrightarrow> writer y = None" for x y lg
          using fl [of "x\<lparr>logBuffer := logBuffer x @ [lg]\<rparr>" y]
          by (auto simp: addLogEntry_def Let_def split: if_splits)
        have rq: "request_from err x rs = Some (y, err') \<Longrightarrow> writer x = None \<Longrightarrow> writer y = None"
          for x y rs err err'
        proof (induction rs arbitrary: x err)
          case Nil
          then show ?case by simp
        next
          case (Cons r rs)
          obtain lg e where "r = (lg, e)" by (cases r)
          with Cons.prems obtain x1 where
            "addLogEntry x lg = Some x1"
            "request_from (case e of None \<Rightarrow> err | Some e' \<Rightarrow> multierr_Append err e') x1 rs
               = Some (y, err')"
            by (auto simp: Let_def split: option.splits)
          with Cons.IH ad Cons.prems(2) show ?case by blast
        qed
        show ?case
        proof (cases c)
          case CtxDone
          with Cons.prems fl show ?thesis
            by (auto simp: flushLogs_def split: option.splits)
        next
          case (TickerC results)
          with Cons.prems obtain x1 e1 where
            "request_from None p1 results = Some (x1, e1)" "loop x1 cs = Returned q"
            by (auto simp: request_def split: option.splits)
          with Cons.IH rq Cons.prems(2) show ?thesis by blast
        next
          case LogTickerC
          with Cons.prems obtain x1 where
            "flushLogsUnsafe p1 = Some x1" "loop x1 cs = Returned q"
            by (auto simp: flushLogs_def split: option.splits)
          with Cons.IH fl Cons.prems(2) show ?thesis by blast
        qed
      qed
      from this [OF l None] None p'_same show ?thesis by simp
    next
      case (Some w)
      have "\<And>q. loop p1 cs = Returned q \<Longrightarrow> writer p1 \<noteq> None \<Longrightarrow> writer q \<noteq> None" for p1 cs
      proof (induction cs arbitrary: p1)
        case Nil
        then show ?case by simp
      next
        case (Cons c cs)
        have fl: "flushLogsUnsafe x = Some y \<Longrightarrow> writer x \<noteq> None \<Longrightarrow> writer y \<noteq> None" for x y
          by (auto simp: flushLogsUnsafe_def Writer_Write_def split: if_splits option.splits)
        have ad: "addLogEntry x lg = Some y \<Longrightarrow> writer x \<noteq> None \<Longrightarrow> writer y \<noteq> None"
          for x y lg
          using addLogEntry_handed [of x lg] by auto
        have rq: "request_from err x rs = Some (y, err') \<Longrightarrow> writer x \<noteq> None \<Longrightarrow> writer y \<noteq> None"
          for x y rs err err'
          using request_from_handed [of x err rs] by auto
        show ?case
        proof (cases c)
          case CtxDone
          with Cons.prems fl show ?thesis
            by (auto simp: flushLogs_def split: option.splits)
        next
          case (TickerC results)
          with Cons.prems obtain x1 e1 where
            "request_from None p1 results = Some (x1, e1)" "loop x1 cs = Returned q"
            by (auto simp: request_def split: option.splits)
          with Cons.IH rq Cons.prems(2) show ?thesis by blast
        next
          case LogTickerC
          with Cons.prems obtain x1 where
            "flushLogsUnsafe p1 = Some x1" "loop x1 cs = Returned q"
            by (auto simp: flushLogs_def split: option.splits)
          with Cons.IH fl Cons.prems(2) show ?thesis by blast
        qed
      qed
      from this [OF l] Some p'_same show ?thesis by simp
    qed
  qed
  show ?thesis
  proof (cases "writer q0")
    case None
    with fin have "q = q0" "r = None" by simp_all
    with None q0_same p'_same none_iff show ?thesis
      by (simp add: closes_def close_outcome_def)
  next
    case (Some w)
    with none_iff have wp: "writer p \<noteq> None" by simp
    from Some q0_same p'_same have cw: "close_calls w = closes p" "close_result w = close_outcome p"
      by (simp_all add: closes_def close_outcome_def)
    show ?thesis
    proof (cases "close_result w")
      case None
      with fin Some have "q = q0\<lparr>writer := Some (w\<lparr>close_calls := Suc (close_calls w)\<rparr>)\<rparr>"
        "r = None"
        by (simp_all add: Writer_Close_def)
      with None cw wp q0_same p'_same show ?thesis
        by (simp add: closes_def)
    next
      case (Some e)
      with fin \<open>writer q0 = Some w\<close>
      have "q = q0\<lparr>writer := Some (w\<lparr>close_calls := Suc (close_calls w)\<rparr>)\<rparr>"
        "r = multierr_Append None (Wrap ''error closing writer: '' e)"
        by (simp_all add: Writer_Close_def)
      with Some cw wp q0_same p'_same show ?thesis
        by (simp add: closes_def)
    qed
  qed
qed

lemma Close_first_call:
  assumes "\<not> once p" and "Close p pending = Returns (p1, r1)"
  shows "\<exists>r0. shutdown (p\<lparr>once := True\<rparr>) pending = Returns (p1, r0) \<and> ((r1 = None) = (r0 = None))"
  using assms
  by (auto simp: Close_def split: outcome.splits option.splits prod.splits)

lemma Close_returns:
  assumes "\<not> once p" "has_cancel p" "writer p \<noteq> None" "CtxDone \<notin> set pending"
  shows "\<exists>p1 r1. Close p pending = Returns (p1, r1)"
proof -
  let ?p' = "p\<lparr>once := True, ctx_done := True\<rparr>"
  have "writer ?p' \<noteq> None" using assms by simp
  from loop_handed [OF this assms(4)] obtain q where
    q: "loop ?p' (pending @ [CtxDone]) = Returned q" "writer q \<noteq> None"
    by blast
  then obtain w where w: "writer q = Some w" by auto
  have "\<exists>x. shutdown (p\<lparr>once := True\<rparr>) pending = Returns x"
  proof (cases "wg p = 0")
    case True
    with assms show ?thesis
      by (auto simp: shutdown_def Let_def Writer_Close_def split: option.splits)
  next
    case False
    with assms q w show ?thesis
      by (auto simp: shutdown_def Let_def Writer_Close_def split: option.splits)
  qed
  with assms(1) show ?thesis
    by (auto simp: Close_def split: option.splits)
qed

text \<open>
  C4, as the code has it. The first \<open>Close\<close> of a Processor runs the shutdown: the
  context is cancelled, the loop has returned, the Writer has received exactly one more
  \<open>Close\<close>, and the call returns an error exactly when the Writer's \<open>Close\<close> failed. It
  does return when the Processor has its cancel function and a Writer. A second \<open>Close\<close>
  changes nothing, so the shutdown has run once, and it returns nil: the same value as the
  first call when the Writer closed without error, nil instead of the first call's error
  otherwise.
\<close>

theorem C4_close_runs_shutdown_once:
  assumes "\<not> once p"
  shows "(has_cancel p \<and> writer p \<noteq> None \<and> CtxDone \<notin> set pending \<longrightarrow>
            (\<exists>p1 r1. Close p pending = Returns (p1, r1)))
       \<and> (Close p pending = Returns (p1, r1) \<longrightarrow>
            once p1 \<and> (has_cancel p \<longrightarrow> ctx_done p1)
            \<and> closes p1 = (if writer p = None then 0 else Suc (closes p))
            \<and> ((r1 = None) = (close_outcome p = None))
            \<and> Close p1 pending' = Returns (p1, None)
            \<and> ((Close p1 pending' = Returns (p1, r1)) = (close_outcome p = None)))"
proof -
  have second: "once p1 \<and> (has_cancel p \<longrightarrow> ctx_done p1)
            \<and> closes p1 = (if writer p = None then 0 else Suc (closes p))
            \<and> ((r1 = None) = (close_outcome p = None))
            \<and> Close p1 pending' = Returns (p1, None)
            \<and> ((Close p1 pending' = Returns (p1, r1)) = (close_outcome p = None))"
    if c: "Close p pending = Returns (p1, r1)"
  proof -
    from Close_first_call [OF assms c] obtain r0 where
      r0: "shutdown (p\<lparr>once := True\<rparr>) pending = Returns (p1, r0)" "(r1 = None) = (r0 = None)"
      by blast
    from shutdown_effect [OF r0(1)] have e: "once p1" "has_cancel p \<longrightarrow> ctx_done p1"
      "closes p1 = (if writer p = None then 0 else Suc (closes p))"
      "(r0 = None) = (close_outcome p = None)"
      by (simp_all add: closes_def close_outcome_def)
    from e(1) have again: "Close p1 pending' = Returns (p1, None)"
      by (simp add: Close_def)
    from again r0(2) e(4) have "(Close p1 pending' = Returns (p1, r1)) = (close_outcome p = None)"
      by auto
    with e again r0(2) show ?thesis by simp
  qed
  from Close_returns [OF assms, of pending] second show ?thesis by blast
qed

theorem C4_close_runs_shutdown_once_witness:
  "\<not> once ex_failing \<and> has_cancel ex_failing \<and> writer ex_failing \<noteq> None
   \<and> CtxDone \<notin> set ex_cases \<and> closes ex_failing = 0
   \<and> (\<exists>p1 r1. Close ex_failing ex_cases = Returns (p1, r1) \<and> once p1 \<and> ctx_done p1
         \<and> closes p1 = 1 \<and> r1 \<noteq> None \<and> Close p1 [] = Returns (p1, None))"
proof -
  have a: "\<not> once ex_failing" "has_cancel ex_failing" "writer ex_failing \<noteq> None"
    "CtxDone \<notin> set ex_cases" "closes ex_failing = 0" "close_outcome ex_failing \<noteq> None"
    by (simp_all add: ex_failing_def ex_processor_def ex_cases_def closes_def ex_writer_def
          close_outcome_def)
  note T = C4_close_runs_shutdown_once [OF a(1), where pending = ex_cases and pending' = "[]"]
  from T a obtain p1 r1 where c: "Close ex_failing ex_cases = Returns (p1, r1)" by blast
  from T [where ?p1.0 = p1 and ?r1.0 = r1] c a
  have "once p1 \<and> ctx_done p1 \<and> closes p1 = 1 \<and> r1 \<noteq> None \<and> Close p1 [] = Returns (p1, None)"
    by simp
  with c a show ?thesis by blast
qed

text \<open>
  The claim as stated fails: when the Writer fails to close, the first \<open>Close\<close> returns
  the error and the second returns nil.
\<close>

theorem C4_second_close_returns_nil:
  "Close ex_failing []
     = Returns (ex_failing_closed,
                Some (Wrap ''error while closing processor: ''
                        (Multi [Wrap ''error closing writer: '' (New ''sync failed'')])))
   \<and> Close ex_failing_closed [] = Returns (ex_failing_closed, None)"
  by (simp add: Close_def shutdown_def ex_failing_def ex_failing_closed_def ex_processor_def
        ex_writer_def flushLogs_def flushLogsUnsafe_def Writer_Close_def Let_def)

section \<open>Membership in the message set\<close>

lemma fold_insert_set: "set (fold List.insert xs ys) = set xs \<union> set ys"
  by (induction xs arbitrary: ys) auto

lemma fold_insert_distinct: "distinct ys \<Longrightarrow> distinct (fold List.insert xs ys)"
  by (induction xs arbitrary: ys) auto

text \<open>
  C5, as the code has it. The message set is keyed by the message object, that is by its
  pointer. Adding the same object twice leaves a single member. Two distinct objects are
  two members, whatever their message ids or command strings, and each has its history at
  its own address: a \<open>Process\<close> through one pointer leaves the object behind the other
  unchanged. The set built by \<open>NewProcessor\<close> holds each pointer given once.
\<close>

theorem C5_set_keyed_by_pointer:
  "messages (AddMessage (AddMessage p a) a) = messages (AddMessage p a)
   \<and> (distinct (messages p) \<longrightarrow> distinct (messages (AddMessage p a)))
   \<and> set (messages (AddMessage p a)) = insert a (set (messages p))
   \<and> (a \<noteq> b \<and> a \<notin> set (messages p) \<and> b \<notin> set (messages p) \<longrightarrow>
        length (messages (AddMessage (AddMessage p a) b)) = length (messages p) + 2)
   \<and> (a \<noteq> b \<and> Process_at st a r e = Some (st', lg, err) \<longrightarrow> deref st' b = deref st b)
   \<and> (NewProcessor parent_done i w n ms = Some q \<longrightarrow>
        distinct (messages q) \<and> set (messages q) = set ms)"
proof -
  have 1: "messages (AddMessage (AddMessage p a) a) = messages (AddMessage p a)"
    by (simp add: AddMessage_def)
  have 2: "distinct (messages p) \<longrightarrow> distinct (messages (AddMessage p a))"
    by (simp add: AddMessage_def)
  have 3: "set (messages (AddMessage p a)) = insert a (set (messages p))"
    by (simp add: AddMessage_def)
  have 4: "a \<noteq> b \<and> a \<notin> set (messages p) \<and> b \<notin> set (messages p) \<longrightarrow>
        length (messages (AddMessage (AddMessage p a) b)) = length (messages p) + 2"
    by (simp add: AddMessage_def List.insert_def)
  have 5: "a \<noteq> b \<and> Process_at st a r e = Some (st', lg, err) \<longrightarrow> deref st' b = deref st b"
    by (auto simp: Process_at_def deref_def split: option.splits)
  have 6: "NewProcessor parent_done i w n ms = Some q \<longrightarrow>
        distinct (messages q) \<and> set (messages q) = set ms"
    by (auto simp: NewProcessor_def fold_insert_set fold_insert_distinct split: if_splits)
  from 1 2 3 4 5 6 show ?thesis by blast
qed

theorem C5_set_keyed_by_pointer_witness:
  "distinct (messages ex_empty) \<and> distinct (messages (AddMessage ex_empty 0))
   \<and> (0 :: nat) \<noteq> 1 \<and> 0 \<notin> set (messages ex_empty) \<and> 1 \<notin> set (messages ex_empty)
   \<and> length (messages (AddMessage (AddMessage ex_empty 0) 1)) = 2
   \<and> length (messages (AddMessage (AddMessage ex_empty 0) 0)) = 1
   \<and> (\<exists>st' lg err. Process_at ex_store 0 (Some ATRequester) (ex_env []) = Some (st', lg, err)
         \<and> deref st' 1 = deref ex_store 1)
   \<and> (\<exists>q. NewProcessor False 1000000000 None 2 [0, 1, 0] = Some q
         \<and> distinct (messages q) \<and> set (messages q) = {0, 1})"
proof -
  have a: "distinct (messages ex_empty)" "(0 :: nat) \<noteq> 1" "0 \<notin> set (messages ex_empty)"
    "1 \<notin> set (messages ex_empty)" "length (messages ex_empty) = 0"
    by (simp_all add: ex_empty_def)
  have "\<exists>x. Process_at ex_store 0 (Some ATRequester) (ex_env []) = Some x"
    by (simp add: Process_at_def deref_def ex_store_def alloc_def split: prod.splits)
  then obtain st' lg err where
    b: "Process_at ex_store 0 (Some ATRequester) (ex_env []) = Some (st', lg, err)"
    by auto
  have "\<exists>q. NewProcessor False 1000000000 None 2 [0, 1, 0] = Some q"
    by (simp add: NewProcessor_def)
  then obtain q where c: "NewProcessor False 1000000000 None 2 [0, 1, 0] = Some q" by blast
  note T = C5_set_keyed_by_pointer
    [where p = ex_empty and a = 0 and b = 1 and st = ex_store and r = "Some ATRequester"
       and e = "ex_env []" and st' = st' and lg = lg and err = err and parent_done = False
       and i = 1000000000 and w = None and n = 2 and ms = "[0, 1, 0]" and q = q]
  from T a have d: "distinct (messages (AddMessage ex_empty 0))"
    "length (messages (AddMessage (AddMessage ex_empty 0) 1)) = 2"
    by simp_all
  from T have "length (messages (AddMessage (AddMessage ex_empty 0) 0))
                 = length (messages (AddMessage ex_empty 0))"
    by simp
  then have f: "length (messages (AddMessage (AddMessage ex_empty 0) 0)) = 1"
    by (simp add: AddMessage_def ex_empty_def)
  from T a(2) b have g: "deref st' 1 = deref ex_store 1" by blast
  from T c have h: "distinct (messages q) \<and> set (messages q) = {0, 1}" by auto
  from a d f b g c h show ?thesis by blast
qed

text \<open>
  The claim as stated fails: two message objects made for the same command have the same
  identity key, and after adding both the set has two members.
\<close>

theorem C5_same_key_two_members:
  "identity_key (ex_store ! 0) = identity_key (ex_store ! 1)
   \<and> GetType (ex_store ! 0) = GetType (ex_store ! 1)
   \<and> messages (AddMessage (AddMessage ex_empty 0) 1) = [1, 0]"
  by (simp add: ex_store_def alloc_def AT_NewMessage_def AddMessage_def ex_empty_def
        AT_GetType_def)

section \<open>The CSV writer\<close>

lemma csv_entries_records:
  assumes "sticky (csv_writer w) = None"
  shows "csv_entries f w entries
           = (w\<lparr>csv_writer := (csv_writer w)\<lparr>records := records (csv_writer w)
                                                   @ map (csv_record f) entries\<rparr>\<rparr>, None)"
  using assms
  by (induction entries arbitrary: w) (simp_all add: csv_Write_def)

lemma CSVWriter_Write_records:
  assumes "sticky (csv_writer w) = None"
  shows "CSVWriter_Write f w entries
           = (w\<lparr>csv_writer := (csv_writer w)\<lparr>records := records (csv_writer w)
                                 @ (if header w then [] else [csv_header])
                                 @ map (csv_record f) entries\<rparr>,
                header := True\<rparr>, None)"
  using assms
  by (cases "header w") (simp_all add: CSVWriter_Write_def csv_Write_def csv_entries_records)

lemma CSVWriter_Writes_records:
  assumes "sticky (csv_writer w) = None"
  shows "records (csv_writer (CSVWriter_Writes f w batches))
           = records (csv_writer w)
               @ (if header w \<or> batches = [] then [] else [csv_header])
               @ map (csv_record f) (concat batches)"
  using assms
  by (induction batches arbitrary: w) (simp_all add: CSVWriter_Write_records)

lemma CSVWriter_header_once:
  "batches \<noteq> [] \<Longrightarrow>
   records (csv_writer (CSVWriter_Writes f NewCSVWriter batches))
     = csv_header # map (csv_record f) (concat batches)"
  using CSVWriter_Writes_records [of NewCSVWriter f batches]
  by (simp add: NewCSVWriter_def)

text \<open>
  C7. The header names ten columns, the fourth being \<open>timestamp\<close>. The record that
  \<open>Write\<close> builds for an entry has nine values: none is made for \<open>timestamp\<close>, so the
  value of \<open>success\<close> stands in the fourth place, under \<open>timestamp\<close>, and every later
  value stands one column to the left of its name. Here a new writer is given one batch of
  one entry.
\<close>

theorem C7_record_has_no_timestamp_value:
  "records (csv_writer (fst (CSVWriter_Write f NewCSVWriter [entry])))
     = [csv_header, csv_record f entry]
   \<and> length csv_header = 10 \<and> length (csv_record f entry) = 9
   \<and> csv_header ! 3 = ''timestamp'' \<and> csv_record f entry ! 3 = Sprintf_t (Success entry)
   \<and> csv_header ! 9 = ''duration_ms'' \<and> csv_record f entry ! 8 = Sprintf_2f_ms f (Duration entry)"
  by (simp add: CSVWriter_Write_records NewCSVWriter_def)
     (simp add: csv_header_def csv_record_def)

section \<open>The binary writer\<close>

lemma unat_ucast_byte: "unat (ucast (w :: 32 word) :: 8 word) = unat w mod 256"
  by (simp add: unsigned_ucast_eq take_bit_eq_mod)

lemma unat_drop_bit_div: "unat (drop_bit n (w :: 32 word)) = unat w div 2 ^ n"
  unfolding unat_drop_bit_eq by (rule drop_bit_eq_div)

lemma four_bytes_sum:
  fixes n :: nat
  assumes "n < 2 ^ 32"
  shows "n mod 256 + 256 * (n div 2 ^ 8 mod 256) + 65536 * (n div 2 ^ 16 mod 256)
           + 16777216 * (n div 2 ^ 24 mod 256) = n"
proof -
  define a where "a = n div 256"
  define b where "b = a div 256"
  define c where "c = b div 256"
  have n: "n = n mod 256 + 256 * a" by (simp add: a_def)
  have a: "a = a mod 256 + 256 * b" by (simp add: b_def)
  have b: "b = b mod 256 + 256 * c" by (simp add: c_def)
  have d8: "n div 2 ^ 8 = a" by (simp add: a_def)
  have d16: "n div 2 ^ 16 = b" by (simp add: a_def b_def div_mult2_eq)
  have d24: "n div 2 ^ 24 = c" by (simp add: a_def b_def c_def div_mult2_eq)
  have "c < 256" using assms unfolding d24 [symmetric] by (simp add: less_mult_imp_div_less)
  then have c: "c mod 256 = c" by simp
  show ?thesis unfolding d8 d16 d24 c using n a b by linarith
qed

lemma uint32_of_LittleEndian_inverse:
  "uint32_of_LittleEndian (ucast v) (ucast (drop_bit 8 v)) (ucast (drop_bit 16 v))
     (ucast (drop_bit 24 v)) = (v :: 32 word)"
proof -
  have b: "unat v < 2 ^ 32" using unsigned_less [of v] by simp
  show ?thesis
    unfolding uint32_of_LittleEndian_def unat_ucast_byte unat_drop_bit_div four_bytes_sum [OF b]
    by simp
qed

lemma read_records_frame:
  assumes "length data < 2 ^ 32"
  shows "read_records (frame data @ rest) = data # read_records rest"
proof -
  have "unat (of_nat (length data) :: 32 word) = length data"
    using assms by (simp add: unat_of_nat)
  then show ?thesis
    by (simp add: frame_def LittleEndian_uint32_def uint32_of_LittleEndian_inverse)
qed

lemma read_records_frames:
  assumes "\<forall>data \<in> set ds. length data < 2 ^ 32"
  shows "read_records (concat (map frame ds)) = ds"
  using assms
proof (induction ds)
  case Nil
  then show ?case by simp
next
  case (Cons d ds)
  then show ?case using read_records_frame [of d "concat (map frame ds)"] by simp
qed

lemma File_Write_no_fault:
  "faults f = [] \<Longrightarrow> File_Write f bs = (f\<lparr>contents := contents f @ bs\<rparr>, None)"
  by (simp add: File_Write_def)

lemma BinaryWriter_Write_prefix:
  assumes "\<forall>entry \<in> set pre. \<exists>data. Marshal entry = Inr data" and "faults fl = []"
  shows "BinaryWriter_Write Marshal fl (pre @ rest)
           = BinaryWriter_Write Marshal
               (fl\<lparr>contents := contents fl
                         @ concat (map (\<lambda>entry. frame (encoding Marshal entry)) pre)\<rparr>) rest"
  using assms
proof (induction pre arbitrary: fl)
  case Nil
  then show ?case by simp
next
  case (Cons entry pre)
  then obtain data where d: "Marshal entry = Inr data" by auto
  let ?f1 = "fl\<lparr>contents := contents fl @ LittleEndian_uint32 (of_nat (length data))\<rparr>"
  let ?f2 = "fl\<lparr>contents := contents fl @ frame data\<rparr>"
  have w1: "File_Write fl (LittleEndian_uint32 (of_nat (length data))) = (?f1, None)"
    using Cons.prems(2) by (rule File_Write_no_fault)
  have w2: "File_Write ?f1 data = (?f2, None)"
    using Cons.prems(2) by (simp add: File_Write_no_fault frame_def)
  have step: "BinaryWriter_Write Marshal fl ((entry # pre) @ rest)
                = BinaryWriter_Write Marshal ?f2 (pre @ rest)"
    using d w1 w2 by (simp add: Let_def)
  have "faults ?f2 = []" using Cons.prems(2) by simp
  from Cons.IH [OF _ this] Cons.prems(1)
  have "BinaryWriter_Write Marshal ?f2 (pre @ rest)
          = BinaryWriter_Write Marshal
              (?f2\<lparr>contents := contents ?f2
                        @ concat (map (\<lambda>entry. frame (encoding Marshal entry)) pre)\<rparr>) rest"
    by simp
  with step d show ?case by (simp add: encoding_def)
qed

text \<open>
  C8, as the code has it. When \<open>json.Marshal\<close> encodes every entry of the batch, each in
  fewer than 2^32 bytes, and no write to the file fails, \<open>Write\<close> appends to the file, for
  each entry in order, one frame: the four bytes of the length, little-endian, and then
  the encoding, which has exactly that length. Reading the stream of these frames back
  gives the encodings in order, and so, under any decoder that inverts \<open>json.Marshal\<close> on
  these entries, the entries themselves. When \<open>json.Marshal\<close> refuses an entry, \<open>Write\<close>
  stops there and returns the error: the file has the frames of the entries before it and
  no frame for that entry or any later one.
\<close>

theorem C8_frames_round_trip:
  assumes "\<forall>entry \<in> set entries. \<exists>data. Marshal entry = Inr data \<and> length data < 2 ^ 32"
    and "faults fl = []"
  shows "BinaryWriter_Write Marshal fl entries
           = (fl\<lparr>contents := contents fl
                      @ concat (map (\<lambda>entry. frame (encoding Marshal entry)) entries)\<rparr>, None)
       \<and> (\<forall>entry \<in> set entries.
             take 4 (frame (encoding Marshal entry))
               = LittleEndian_uint32 (of_nat (length (encoding Marshal entry)))
             \<and> drop 4 (frame (encoding Marshal entry)) = encoding Marshal entry
             \<and> unat (of_nat (length (encoding Marshal entry)) :: 32 word)
                 = length (encoding Marshal entry))
       \<and> read_records (concat (map (\<lambda>entry. frame (encoding Marshal entry)) entries))
           = map (encoding Marshal) entries
       \<and> ((\<forall>entry \<in> set entries. Unmarshal (encoding Marshal entry) = Some entry) \<longrightarrow>
            map Unmarshal
              (read_records (concat (map (\<lambda>entry. frame (encoding Marshal entry)) entries)))
              = map Some entries)
       \<and> (Marshal refused = Inl txt \<longrightarrow>
            BinaryWriter_Write Marshal fl (entries @ refused # rest)
              = (fl\<lparr>contents := contents fl
                        @ concat (map (\<lambda>entry. frame (encoding Marshal entry)) entries)\<rparr>,
                 Some (New txt)))"
proof -
  from assms(1) have ok: "\<forall>entry \<in> set entries. \<exists>data. Marshal entry = Inr data" by blast
  from assms(1) have len: "\<forall>entry \<in> set entries. length (encoding Marshal entry) < 2 ^ 32"
    by (auto simp: encoding_def)
  have 1: "BinaryWriter_Write Marshal fl entries
           = (fl\<lparr>contents := contents fl
                      @ concat (map (\<lambda>entry. frame (encoding Marshal entry)) entries)\<rparr>, None)"
    using BinaryWriter_Write_prefix [OF ok assms(2), of "[]"] by simp
  have 2: "\<forall>entry \<in> set entries.
             take 4 (frame (encoding Marshal entry))
               = LittleEndian_uint32 (of_nat (length (encoding Marshal entry)))
             \<and> drop 4 (frame (encoding Marshal entry)) = encoding Marshal entry
             \<and> unat (of_nat (length (encoding Marshal entry)) :: 32 word)
                 = length (encoding Marshal entry)"
    using len by (simp add: frame_def LittleEndian_uint32_def unat_of_nat)
  have "read_records (concat (map frame (map (encoding Marshal) entries)))
          = map (encoding Marshal) entries"
    using len by (intro read_records_frames) simp
  then have 3: "read_records (concat (map (\<lambda>entry. frame (encoding Marshal entry)) entries))
           = map (encoding Marshal) entries"
    by (simp add: comp_def)
  have 4: "map Unmarshal
              (read_records (concat (map (\<lambda>entry. frame (encoding Marshal entry)) entries)))
              = map Some entries"
    if "\<forall>entry \<in> set entries. Unmarshal (encoding Marshal entry) = Some entry"
    unfolding 3 using that by (induction entries) simp_all
  have 5: "BinaryWriter_Write Marshal fl (entries @ refused # rest)
              = (fl\<lparr>contents := contents fl
                        @ concat (map (\<lambda>entry. frame (encoding Marshal entry)) entries)\<rparr>,
                 Some (New txt))"
    if "Marshal refused = Inl txt"
    using BinaryWriter_Write_prefix [OF ok assms(2), of "refused # rest"] that by simp
  from 1 2 3 4 5 show ?thesis by blast
qed

lemma ex_frames:
  "frame [0, 1] = [2, 0, 0, 0, 0, 1]" "frame [2, 0] = [2, 0, 0, 0, 2, 0]"
  by (simp_all add: frame_def LittleEndian_uint32_def)

lemma ex_Marshal_values:
  "ex_Marshal (ex_entry 0 True 0) = Inr [0, 1]" "ex_Marshal (ex_entry 2 False 0) = Inr [2, 0]"
  "ex_Marshal ex_refused = Inl ''json: unsupported value: NaN''"
  by (simp_all add: ex_Marshal_def ex_entry_def ex_refused_def)

theorem C8_frames_round_trip_witness:
  "faults ex_file = []
   \<and> ex_Marshal (ex_entry 0 True 0) = Inr [0, 1] \<and> length [0 :: 8 word, 1] < 2 ^ 32
   \<and> ex_Marshal (ex_entry 2 False 0) = Inr [2, 0] \<and> length [2 :: 8 word, 0] < 2 ^ 32
   \<and> BinaryWriter_Write ex_Marshal ex_file [ex_entry 0 True 0, ex_entry 2 False 0]
       = (ex_file\<lparr>contents := [2, 0, 0, 0, 0, 1, 2, 0, 0, 0, 2, 0]\<rparr>, None)
   \<and> read_records [2, 0, 0, 0, 0, 1, 2, 0, 0, 0, 2, 0] = [[0, 1], [2, 0]]
   \<and> ex_Unmarshal [0, 1] = Some (ex_entry 0 True 0)
   \<and> ex_Unmarshal [2, 0] = Some (ex_entry 2 False 0)
   \<and> map ex_Unmarshal (read_records [2, 0, 0, 0, 0, 1, 2, 0, 0, 0, 2, 0])
       = [Some (ex_entry 0 True 0), Some (ex_entry 2 False 0)]
   \<and> ex_Marshal ex_refused = Inl ''json: unsupported value: NaN''
   \<and> BinaryWriter_Write ex_Marshal ex_file
         ([ex_entry 0 True 0, ex_entry 2 False 0] @ ex_refused # [ex_entry 3 True 0])
       = (ex_file\<lparr>contents := [2, 0, 0, 0, 0, 1, 2, 0, 0, 0, 2, 0]\<rparr>,
          Some (New ''json: unsupported value: NaN''))"
proof -
  let ?es = "[ex_entry 0 True 0, ex_entry 2 False 0]"
  have a: "\<forall>entry \<in> set ?es. \<exists>data. ex_Marshal entry = Inr data \<and> length data < 2 ^ 32"
    by (simp add: ex_Marshal_values)
  have b: "faults ex_file = []" by (simp add: ex_file_def)
  have c: "concat (map (\<lambda>entry. frame (encoding ex_Marshal entry)) ?es)
             = [2, 0, 0, 0, 0, 1, 2, 0, 0, 0, 2, 0]"
    "map (encoding ex_Marshal) ?es = [[0, 1], [2, 0]]"
    by (simp_all add: encoding_def ex_Marshal_values ex_frames)
  have d: "ex_Unmarshal [0, 1] = Some (ex_entry 0 True 0)"
    "ex_Unmarshal [2, 0] = Some (ex_entry 2 False 0)"
    by (simp_all add: ex_Unmarshal_def)
  then have e: "\<forall>entry \<in> set ?es. ex_Unmarshal (encoding ex_Marshal entry) = Some entry"
    by (simp add: encoding_def ex_Marshal_values)
  have f: "contents ex_file = []" by (simp add: ex_file_def)
  note T = C8_frames_round_trip
    [OF a b, where Unmarshal = ex_Unmarshal and refused = ex_refused
       and ?txt = "''json: unsupported value: NaN''" and rest = "[ex_entry 3 True 0]"]
  from T have "BinaryWriter_Write ex_Marshal ex_file ?es
       = (ex_file\<lparr>contents := contents ex_file
            @ concat (map (\<lambda>entry. frame (encoding ex_Marshal entry)) ?es)\<rparr>, None)"
    by blast
  then have 1: "BinaryWriter_Write ex_Marshal ex_file ?es
       = (ex_file\<lparr>contents := [2, 0, 0, 0, 0, 1, 2, 0, 0, 0, 2, 0]\<rparr>, None)"
    unfolding c f by simp
  from T have "read_records (concat (map (\<lambda>entry. frame (encoding ex_Marshal entry)) ?es))
       = map (encoding ex_Marshal) ?es"
    by blast
  then have 2: "read_records [2, 0, 0, 0, 0, 1, 2, 0, 0, 0, 2, 0] = [[0, 1], [2, 0]]"
    unfolding c .
  from T e have "map ex_Unmarshal
       (read_records (concat (map (\<lambda>entry. frame (encoding ex_Marshal entry)) ?es)))
       = map Some ?es"
    by blast
  then have 3: "map ex_Unmarshal (read_records [2, 0, 0, 0, 0, 1, 2, 0, 0, 0, 2, 0])
       = [Some (ex_entry 0 True 0), Some (ex_entry 2 False 0)]"
    unfolding c by simp
  from T ex_Marshal_values(3) have "BinaryWriter_Write ex_Marshal ex_file
         (?es @ ex_refused # [ex_entry 3 True 0])
       = (ex_file\<lparr>contents := contents ex_file
            @ concat (map (\<lambda>entry. frame (encoding ex_Marshal entry)) ?es)\<rparr>,
          Some (New ''json: unsupported value: NaN''))"
    by blast
  then have 4: "BinaryWriter_Write ex_Marshal ex_file
         (?es @ ex_refused # [ex_entry 3 True 0])
       = (ex_file\<lparr>contents := [2, 0, 0, 0, 0, 1, 2, 0, 0, 0, 2, 0]\<rparr>,
          Some (New ''json: unsupported value: NaN''))"
    unfolding c f by simp
  have 5: "length [0 :: 8 word, 1] < 2 ^ 32" "length [2 :: 8 word, 0] < 2 ^ 32" by simp_all
  from b ex_Marshal_values d 1 2 3 4 5 show ?thesis by blast
qed

text \<open>
  The claim as stated fails: the second entry of this batch cannot be encoded, \<open>Write\<close>
  returns the error, and the stream holds one record for a batch of three entries.
\<close>

theorem C8_refused_entry_ends_batch:
  "BinaryWriter_Write ex_Marshal ex_file [ex_entry 0 True 0, ex_refused, ex_entry 2 False 0]
     = (\<lparr>contents = [2, 0, 0, 0, 0, 1], faults = []\<rparr>, Some (New ''json: unsupported value: NaN''))
   \<and> read_records [2, 0, 0, 0, 0, 1] = [[0, 1]]"
  by (simp add: ex_Marshal_values ex_file_def File_Write_def LittleEndian_uint32_def Let_def
        uint32_of_LittleEndian_def)

section \<open>Statistics\<close>











end
